theory Spec2Isabelle
  imports Complex_Main "HOL-Library.Word"
begin

unbundle bit_operations_syntax

section \<open>Python values, dictionaries and exceptions\<close>

text \<open>
  A Python float is a finite real, an infinity or NaN. Arithmetic and comparison of the
  finite ones are those of the reals: the rounding of float arithmetic is abstracted away.
\<close>

datatype pyfloat = Fin real | PosInf | NegInf | NaN

text \<open>The values a row holds: \<open>None\<close>, a float, or a string.\<close>

datatype pyval = PNone | PFloat pyfloat | PStr string

text \<open>The exceptions of the modelled code that escape the function which raises them.\<close>

datatype pyerr = IndexError | KeyError | TypeError | ValueError

text \<open>Truth value testing: \<open>None\<close>, \<open>0.0\<close> and the empty string are false.\<close>

fun truthy :: "pyval \<Rightarrow> bool" where
  "truthy PNone = False"
| "truthy (PFloat (Fin x)) = (x \<noteq> 0)"
| "truthy (PFloat _) = True"
| "truthy (PStr s) = (s \<noteq> [])"

text \<open>\<open>a > b\<close> and \<open>a < b\<close> for a float \<open>a\<close> and a finite float \<open>b\<close>.\<close>

fun float_gt :: "pyfloat \<Rightarrow> real \<Rightarrow> bool" where
  "float_gt (Fin x) h = (x > h)"
| "float_gt PosInf h = True"
| "float_gt NegInf h = False"
| "float_gt NaN h = False"

fun float_lt :: "pyfloat \<Rightarrow> real \<Rightarrow> bool" where
  "float_lt (Fin x) l = (x < l)"
| "float_lt PosInf l = False"
| "float_lt NegInf l = True"
| "float_lt NaN l = False"

text \<open>
  A \<open>dict\<close> whose order matters is an association list with unique keys in insertion
  order: \<open>d[k] = v\<close> replaces the value of an existing key in place and appends a new key.
\<close>

type_synonym ('k, 'v) dict = "('k \<times> 'v) list"

fun setitem :: "'k \<Rightarrow> 'v \<Rightarrow> ('k, 'v) dict \<Rightarrow> ('k, 'v) dict" where
  "setitem k v [] = [(k, v)]"
| "setitem k v (p # ps) = (if fst p = k then (k, v) # ps else p # setitem k v ps)"

text \<open>\<open>d.get(k, default)\<close>.\<close>

definition dict_get :: "('k, 'v) dict \<Rightarrow> 'k \<Rightarrow> 'v \<Rightarrow> 'v" where
  "dict_get d k dflt = (case map_of d k of None \<Rightarrow> dflt | Some v \<Rightarrow> v)"

type_synonym row = "(string, pyval) dict"

section \<open>The protocol session and the trace of effects\<close>

datatype region = Input | Holding

text \<open>
  What is passed as \<open>count\<close> and used as the bound of \<open>registers[:count]\<close>: an
  integer, \<open>None\<close> (the slice is then the whole list), or any other value, such as a
  string or a float, with which slicing raises \<open>TypeError\<close>.
\<close>

datatype count_arg = CountInt int | CountNone | CountOther

text \<open>One call of \<open>read_input_registers\<close> or \<open>read_holding_registers\<close>.\<close>

record request =
  region :: region
  address :: int
  count :: count_arg
  device_id :: int

text \<open>
  What one call of the client does: it raises, or returns a response that is falsy,
  an error response, or carries registers.
\<close>

datatype response = NoResponse | ErrorResponse | Registers "16 word list"

datatype outcome = Raised | Returned response

text \<open>A client is a state machine over the state \<open>'s\<close> of the sessions.\<close>

type_synonym 's client = "request \<Rightarrow> 's \<Rightarrow> outcome \<times> 's"

text \<open>
  The effects of the program on its collaborators, in the order they happen: a read call
  on a session, \<open>time.sleep\<close>, \<open>AppendData\<close>, the call of \<open>CheckAlerts\<close>,
  \<open>discord.SendEmbed\<close> and the assignment of \<open>latestReadings\<close>.
\<close>

datatype alert = HighVoltage pyval | LowVoltage pyval | HighCurrent pyval

datatype event =
    Request request
  | Sleep real
  | Log row
  | Evaluate row
  | Notify string "alert list"
  | Publish "(string, row) dict"

text \<open>
  The mutable state: the sessions, the module's globals \<open>lastKnownValues\<close>,
  \<open>lastReadTime\<close> and \<open>latestReadings\<close>, the variable \<open>lastAlertTime\<close> of \<open>Run\<close>,
  and the trace of effects so far.
\<close>

record 's world =
  net :: 's
  lastKnownValues :: "string \<rightharpoonup> string"
  lastReadTime :: "string \<rightharpoonup> real"
  lastAlertTime :: "string \<rightharpoonup> real"
  latestReadings :: "(string, row) dict"
  trace :: "event list"

definition emit :: "event \<Rightarrow> 's world \<Rightarrow> 's world" where
  "emit e w = w\<lparr>trace := trace w @ [e]\<rparr>"

text \<open>A computation that may raise: the exception or the value, with the state reached.\<close>

type_synonym ('a, 's) res = "(pyerr \<times> 's world) + ('a \<times> 's world)"

section \<open>ModbusReader\<close>

text \<open>
  A number of the settings file is an integer or a float. The retry count is passed to
  \<open>range\<close>, which raises \<open>TypeError\<close> for a float; the delay (its value in seconds)
  is passed to \<open>time.sleep\<close>, which raises \<open>ValueError\<close> when it is negative.
\<close>

datatype number = IntNum int | FloatNum real

record 's ModbusReader =
  client :: "'s client"
  retries :: number
  delay :: real

text \<open>\<open>xs[:c]\<close>: a negative \<open>c\<close> counts from the end.\<close>

definition slice_to :: "int \<Rightarrow> 'a list \<Rightarrow> 'a list" where
  "slice_to c xs = (if 0 \<le> c then take (nat c) xs else take (length xs - nat (- c)) xs)"

text \<open>\<open>registers[:count]\<close>, or \<open>None\<close> where it raises.\<close>

fun sliced :: "count_arg \<Rightarrow> 'a list \<Rightarrow> 'a list option" where
  "sliced (CountInt c) xs = Some (slice_to c xs)"
| "sliced CountNone xs = Some xs"
| "sliced CountOther xs = None"

text \<open>
  What the \<open>try\<close> block returns for the outcome of the client's call, when it returns:
  the response must be truthy, no error, and the slice must not raise.
\<close>

fun answer :: "request \<Rightarrow> outcome \<Rightarrow> 16 word list option" where
  "answer rq (Returned (Registers regs)) = sliced (count rq) regs"
| "answer rq _ = None"

text \<open>
  The loop of \<open>ReadRegisters\<close>, \<open>n\<close> iterations left. When the \<open>try\<close> block does not
  return, \<open>time.sleep(self.delay)\<close> runs: after a falsy or error response inside the
  \<open>try\<close> block, where its \<open>ValueError\<close> for a negative delay is caught and the sleep
  of the handler raises it again; after an exception in the handler. Either way a
  negative delay ends the call with \<open>ValueError\<close>, and any other delay is slept once.
\<close>

fun attempts ::
  "'s ModbusReader \<Rightarrow> request \<Rightarrow> nat \<Rightarrow> 's world \<Rightarrow> (16 word list option, 's) res" where
  "attempts rd rq 0 w = Inr (None, w)"
| "attempts rd rq (Suc n) w =
     (case client rd rq (net w) of (out, s') \<Rightarrow>
        (case answer rq out of
           Some regs \<Rightarrow> Inr (Some regs, emit (Request rq) (w\<lparr>net := s'\<rparr>))
         | None \<Rightarrow>
             if delay rd < 0 then Inl (ValueError, emit (Request rq) (w\<lparr>net := s'\<rparr>))
             else attempts rd rq n
                    (emit (Sleep (delay rd)) (emit (Request rq) (w\<lparr>net := s'\<rparr>)))))"

text \<open>
  The call the loop makes: \<open>read_input_registers\<close> when \<open>registerType == "input"\<close>,
  else \<open>read_holding_registers\<close>.
\<close>

definition make_request :: "int \<Rightarrow> int \<Rightarrow> count_arg \<Rightarrow> string \<Rightarrow> request" where
  "make_request addr deviceId cnt registerType =
     \<lparr>region = (if registerType = ''input'' then Input else Holding),
      address = addr, count = cnt, device_id = deviceId\<rparr>"

text \<open>\<open>for _ in range(self.retries)\<close> is outside the \<open>try\<close> block.\<close>

definition ReadRegisters ::
  "'s ModbusReader \<Rightarrow> int \<Rightarrow> int \<Rightarrow> count_arg \<Rightarrow> string \<Rightarrow> 's world \<Rightarrow>
     (16 word list option, 's) res" where
  "ReadRegisters rd addr deviceId cnt registerType w =
     (case retries rd of
        FloatNum x \<Rightarrow> Inl (TypeError, w)
      | IntNum n \<Rightarrow>
          attempts rd (make_request addr deviceId cnt registerType) (nat n) w)"

text \<open>
  \<open>struct.pack(">HH", r0, r1)\<close>: each word as two bytes, the high one first.
\<close>

definition high_byte :: "16 word \<Rightarrow> 8 word" where
  "high_byte reg = ucast (drop_bit 8 reg AND 0xFF)"

definition low_byte :: "16 word \<Rightarrow> 8 word" where
  "low_byte reg = ucast (reg AND 0xFF)"

definition pack_HH :: "16 word \<Rightarrow> 16 word \<Rightarrow> 8 word list" where
  "pack_HH r0 r1 = [high_byte r0, low_byte r0, high_byte r1, low_byte r1]"

text \<open>The 32-bit pattern of four bytes, the most significant byte first.\<close>

definition be32 :: "8 word list \<Rightarrow> 32 word" where
  "be32 bs = foldl (\<lambda>acc b. push_bit 8 acc OR ucast b) 0 bs"

text \<open>
  The IEEE-754 single precision value of a bit pattern: sign bit 31, exponent bits
  30 to 23 with bias 127, fraction bits 22 to 0.
\<close>

definition float32 :: "32 word \<Rightarrow> pyfloat" where
  "float32 bits =
     (let e = unat (drop_bit 23 bits AND 0xFF);
          m = unat (bits AND 0x7FFFFF);
          sgn = (if bit bits 31 then - 1 else 1 :: real)
      in if e = 255 then (if m = 0 then (if bit bits 31 then NegInf else PosInf) else NaN)
         else if e = 0 then Fin (sgn * real m / 2 ^ 149)
         else if 150 \<le> e then Fin (sgn * real (2 ^ 23 + m) * 2 ^ (e - 150))
         else Fin (sgn * real (2 ^ 23 + m) / 2 ^ (150 - e)))"

definition unpack_f :: "8 word list \<Rightarrow> pyfloat" where
  "unpack_f bs = float32 (be32 bs)"

text \<open>
  \<open>round(x, 2)\<close>: the nearest multiple of 1/100, a tie going to the even one; an infinity
  or NaN is returned as it is. The result stands for the float nearest to it.
\<close>

definition round_half_even :: "real \<Rightarrow> int" where
  "round_half_even x =
     (let f = \<lfloor>x\<rfloor>; d = x - of_int f
      in if d < 1 / 2 then f else if 1 / 2 < d then f + 1 else if even f then f else f + 1)"

fun round2 :: "pyfloat \<Rightarrow> pyfloat" where
  "round2 (Fin x) = Fin (of_int (round_half_even (x * 100)) / 100)"
| "round2 v = v"

text \<open>
  What \<open>ReadFloat\<close> makes of the result of \<open>ReadRegisters\<close>: \<open>not registers\<close> holds
  for \<open>None\<close> and for the empty list; with one word, \<open>registers[1]\<close> raises.
\<close>

fun float_of_registers :: "16 word list option \<Rightarrow> pyerr + pyval" where
  "float_of_registers None = Inr PNone"
| "float_of_registers (Some []) = Inr PNone"
| "float_of_registers (Some [r0]) = Inl IndexError"
| "float_of_registers (Some (r0 # r1 # rest)) = Inr (PFloat (round2 (unpack_f (pack_HH r0 r1))))"

definition ReadFloat ::
  "'s ModbusReader \<Rightarrow> int \<Rightarrow> int \<Rightarrow> count_arg \<Rightarrow> 's world \<Rightarrow> (pyval, 's) res" where
  "ReadFloat rd addr deviceId len w =
     (case ReadRegisters rd addr deviceId len ''input'' w of
        Inl e \<Rightarrow> Inl e
      | Inr (registers, w') \<Rightarrow>
          (case float_of_registers registers of
             Inl e \<Rightarrow> Inl (e, w')
           | Inr v \<Rightarrow> Inr (v, w')))"

text \<open>
  \<open>ReadAscii\<close>: the bytes of all words, \<open>rstrip(b"\x00")\<close>, and
  \<open>decode("ascii", errors="ignore")\<close>, which drops every byte above 127.
\<close>

definition raw_bytes :: "16 word list \<Rightarrow> 8 word list" where
  "raw_bytes registers = concat (map (\<lambda>reg. [high_byte reg, low_byte reg]) registers)"

definition rstrip0 :: "8 word list \<Rightarrow> 8 word list" where
  "rstrip0 bs = rev (dropWhile (\<lambda>b. b = 0) (rev bs))"

definition decode_ascii_ignore :: "8 word list \<Rightarrow> string" where
  "decode_ascii_ignore bs = map (\<lambda>b. char_of (unat b)) (filter (\<lambda>b. b < 128) bs)"

definition ascii_of :: "16 word list \<Rightarrow> string" where
  "ascii_of registers = decode_ascii_ignore (rstrip0 (raw_bytes registers))"

fun ascii_of_registers :: "16 word list option \<Rightarrow> string option" where
  "ascii_of_registers None = None"
| "ascii_of_registers (Some []) = None"
| "ascii_of_registers (Some regs) = Some (ascii_of regs)"

definition ReadAscii ::
  "'s ModbusReader \<Rightarrow> int \<Rightarrow> int \<Rightarrow> count_arg \<Rightarrow> 's world \<Rightarrow> (string option, 's) res" where
  "ReadAscii rd addr deviceId len w =
     (case ReadRegisters rd addr deviceId len ''holding'' w of
        Inl e \<Rightarrow> Inl e
      | Inr (registers, w') \<Rightarrow> Inr (ascii_of_registers registers, w'))"

section \<open>CheckAlerts\<close>

text \<open>
  The thresholds are finite floats. An alert carries the value its message prints.
  A row without the key gives \<open>readings.get\<close> its default, the string \<open>"float"\<close>, and
  comparing a string with a float raises.
\<close>

record thresholds =
  voltage_low :: real
  voltage_high :: real
  current_high :: real

definition check_voltage :: "thresholds \<Rightarrow> pyval \<Rightarrow> pyerr + alert list" where
  "check_voltage th voltage =
     (if truthy voltage then
        (case voltage of
           PFloat v \<Rightarrow>
             if float_gt v (voltage_high th) then Inr [HighVoltage voltage]
             else if float_lt v (voltage_low th) then Inr [LowVoltage voltage]
             else Inr []
         | _ \<Rightarrow> Inl TypeError)
      else Inr [])"

definition check_current :: "thresholds \<Rightarrow> pyval \<Rightarrow> alert list \<Rightarrow> pyerr + alert list" where
  "check_current th current alerts =
     (if truthy current then
        (case current of
           PFloat c \<Rightarrow> Inr (if float_gt c (current_high th) then alerts @ [HighCurrent current] else alerts)
         | _ \<Rightarrow> Inl TypeError)
      else Inr alerts)"

definition CheckAlerts :: "thresholds \<Rightarrow> row \<Rightarrow> pyerr + alert list" where
  "CheckAlerts th readings =
     (let voltage = dict_get readings ''voltage'' (PStr ''float'');
          current = dict_get readings ''current'' (PStr ''float'')
      in case check_voltage th voltage of
           Inl e \<Rightarrow> Inl e
         | Inr alerts \<Rightarrow> check_current th current alerts)"

section \<open>Run: one cycle\<close>

text \<open>
  An entry of \<open>registerMap\<close>. \<open>config["register"]\<close> is an integer;
  \<open>config.get("type", "float")\<close> and the length may be missing; \<open>regionKind\<close> is the
  region an entry may declare, which no line of the program reads.
\<close>

record config =
  register :: int
  regType :: "string option"
  registerLength :: "count_arg option"
  regionKind :: "region option"

record tagInfo =
  deviceId :: int
  tagName :: string
  gatewayName :: string

record 's settings =
  alertCooldown :: real
  asciiReadInterval :: real
  alertThresholds :: thresholds
  registerMap :: "(string, config) dict"
  powertags :: "tagInfo list"
  modbusReaders :: "string \<rightharpoonup> 's ModbusReader"

text \<open>
  The \<open>"ascii"\<close> branch: the register is read again when the cycle's time is more than
  the interval after \<open>lastReadTime.get(cacheKey, 0)\<close>; a non-empty result is stored
  with the cycle's time; the value is \<open>lastKnownValues.get(cacheKey, "Unknown")\<close>.
  \<open>config["length"]\<close> raises when the entry has no length.
\<close>

definition store_ascii :: "string \<Rightarrow> real \<Rightarrow> string option \<Rightarrow> 's world \<Rightarrow> 's world" where
  "store_ascii cacheKey cycleStart val w =
     (case val of
        None \<Rightarrow> w
      | Some s \<Rightarrow>
          if s \<noteq> [] then
            w\<lparr>lastKnownValues := (lastKnownValues w)(cacheKey \<mapsto> s),
              lastReadTime := (lastReadTime w)(cacheKey \<mapsto> cycleStart)\<rparr>
          else w)"

definition stale :: "real \<Rightarrow> real \<Rightarrow> string \<Rightarrow> 's world \<Rightarrow> bool" where
  "stale interval cycleStart cacheKey w =
     (cycleStart - (case lastReadTime w cacheKey of None \<Rightarrow> 0 | Some t \<Rightarrow> t) > interval)"

definition known :: "string \<Rightarrow> 's world \<Rightarrow> pyval" where
  "known cacheKey w =
     PStr (case lastKnownValues w cacheKey of None \<Rightarrow> ''Unknown'' | Some v \<Rightarrow> v)"

definition cached_ascii ::
  "real \<Rightarrow> 's ModbusReader \<Rightarrow> real \<Rightarrow> int \<Rightarrow> string \<Rightarrow> config \<Rightarrow> 's world \<Rightarrow> (pyval, 's) res" where
  "cached_ascii interval rd cycleStart devId cacheKey cfg w =
     (if stale interval cycleStart cacheKey w then
        (case registerLength cfg of
           None \<Rightarrow> Inl (KeyError, w)
         | Some len \<Rightarrow>
             (case ReadAscii rd (register cfg) devId len w of
                Inl e \<Rightarrow> Inl e
              | Inr (val, w1) \<Rightarrow>
                  Inr (known cacheKey (store_ascii cacheKey cycleStart val w1),
                       store_ascii cacheKey cycleStart val w1)))
      else Inr (known cacheKey w, w))"

text \<open>
  The body of the loop over \<open>registerMap.items()\<close>: the value of one register.
  \<open>config.get("length", "int")\<close> is a string when the entry has no length.
\<close>

definition read_value ::
  "'s settings \<Rightarrow> real \<Rightarrow> tagInfo \<Rightarrow> string \<Rightarrow> config \<Rightarrow> 's world \<Rightarrow> (pyval, 's) res" where
  "read_value st cycleStart tag key cfg w =
     (case modbusReaders st (gatewayName tag) of
        None \<Rightarrow> Inl (KeyError, w)
      | Some registerReader \<Rightarrow>
          if regType cfg = None \<or> regType cfg = Some ''float'' then
            ReadFloat registerReader (register cfg) (deviceId tag)
              (case registerLength cfg of None \<Rightarrow> CountOther | Some len \<Rightarrow> len) w
          else if regType cfg = Some ''ascii'' then
            cached_ascii (asciiReadInterval st) registerReader cycleStart (deviceId tag)
              (tagName tag @ ''_'' @ key) cfg w
          else Inr (PNone, w))"

fun read_row ::
  "'s settings \<Rightarrow> real \<Rightarrow> tagInfo \<Rightarrow> (string, config) dict \<Rightarrow> row \<Rightarrow> 's world \<Rightarrow> (row, 's) res" where
  "read_row st cycleStart tag [] currentRow w = Inr (currentRow, w)"
| "read_row st cycleStart tag ((key, cfg) # items) currentRow w =
     (case read_value st cycleStart tag key cfg w of
        Inl e \<Rightarrow> Inl e
      | Inr (val, w1) \<Rightarrow> read_row st cycleStart tag items (setitem key val currentRow) w1)"

text \<open>
  The alerts of a row go to the notifier when there are some and the cycle's time is more
  than the cooldown after \<open>lastAlertTime.get(tagName, 0)\<close>.
\<close>

definition dispatch :: "real \<Rightarrow> real \<Rightarrow> string \<Rightarrow> alert list \<Rightarrow> 's world \<Rightarrow> 's world" where
  "dispatch cooldown cycleStart name alerts w =
     (if alerts \<noteq> [] \<and>
         cycleStart - (case lastAlertTime w name of None \<Rightarrow> 0 | Some t \<Rightarrow> t) > cooldown
      then (emit (Notify name alerts) w)\<lparr>lastAlertTime := (lastAlertTime w)(name \<mapsto> cycleStart)\<rparr>
      else w)"

text \<open>
  The body of the loop over \<open>powertags\<close>, after the row is read: the row is put into
  \<open>currentCycleData\<close>, appended to the log, checked, and its alerts dispatched.
\<close>

definition finish_tag ::
  "'s settings \<Rightarrow> real \<Rightarrow> tagInfo \<Rightarrow> (string, row) dict \<Rightarrow> row \<Rightarrow> 's world \<Rightarrow>
     ((string, row) dict, 's) res" where
  "finish_tag st cycleStart tag currentCycleData currentRow w =
     (case CheckAlerts (alertThresholds st) currentRow of
        Inl e \<Rightarrow> Inl (e, emit (Evaluate currentRow) (emit (Log currentRow) w))
      | Inr alerts \<Rightarrow>
          Inr (setitem (tagName tag) currentRow currentCycleData,
               dispatch (alertCooldown st) cycleStart (tagName tag) alerts
                 (emit (Evaluate currentRow) (emit (Log currentRow) w))))"

definition process_tag ::
  "'s settings \<Rightarrow> real \<Rightarrow> tagInfo \<Rightarrow> (string, row) dict \<Rightarrow> 's world \<Rightarrow> ((string, row) dict, 's) res" where
  "process_tag st cycleStart tag currentCycleData w =
     (case read_row st cycleStart tag (registerMap st)
             [(''Tag'', PStr (tagName tag)), (''Timestamp'', PFloat (Fin cycleStart))] w of
        Inl e \<Rightarrow> Inl e
      | Inr (currentRow, w1) \<Rightarrow> finish_tag st cycleStart tag currentCycleData currentRow w1)"

fun process_tags ::
  "'s settings \<Rightarrow> real \<Rightarrow> tagInfo list \<Rightarrow> (string, row) dict \<Rightarrow> 's world \<Rightarrow> ((string, row) dict, 's) res" where
  "process_tags st cycleStart [] currentCycleData w = Inr (currentCycleData, w)"
| "process_tags st cycleStart (tag # tags) currentCycleData w =
     (case process_tag st cycleStart tag currentCycleData w of
        Inl e \<Rightarrow> Inl e
      | Inr (d, w1) \<Rightarrow> process_tags st cycleStart tags d w1)"

text \<open>
  One iteration of \<open>while True\<close> up to the assignment of \<open>latestReadings\<close>. An exception
  leaves the loop, with the state as it is then.
\<close>

definition cycle :: "'s settings \<Rightarrow> real \<Rightarrow> 's world \<Rightarrow> (pyerr \<times> 's world) + 's world" where
  "cycle st cycleStart w =
     (case process_tags st cycleStart (powertags st) [] w of
        Inl e \<Rightarrow> Inl e
      | Inr (currentCycleData, w1) \<Rightarrow>
          Inr (emit (Publish currentCycleData) (w1\<lparr>latestReadings := currentCycleData\<rparr>)))"

text \<open>\<open>GetPowertags\<close> answers a request with the value of \<open>latestReadings\<close> at that moment.\<close>

definition GetPowertags :: "'s world \<Rightarrow> (string, row) dict" where
  "GetPowertags w = latestReadings w"

section \<open>Observations and example configurations\<close>



text \<open>The number of read calls in a trace, and the regions they ask for.\<close>

definition n_requests :: "event list \<Rightarrow> nat" where
  "n_requests tr = length (filter (\<lambda>e. case e of Request _ \<Rightarrow> True | _ \<Rightarrow> False) tr)"

fun requested_regions :: "event list \<Rightarrow> region list" where
  "requested_regions [] = []"
| "requested_regions (Request rq # es) = region rq # requested_regions es"
| "requested_regions (_ # es) = requested_regions es"

text \<open>The events between two states, and the state a computation ends in.\<close>

definition since :: "'s world \<Rightarrow> 's world \<Rightarrow> event list" where
  "since w w' = drop (length (trace w)) (trace w')"

definition res_world :: "('a, 's) res \<Rightarrow> 's world" where
  "res_world r = (case r of Inl (e, w) \<Rightarrow> w | Inr (v, w) \<Rightarrow> w)"

text \<open>The state when \<open>Run\<close> enters its loop: every dictionary is empty.\<close>

definition init_world :: "'s \<Rightarrow> 's world" where
  "init_world s = \<lparr>net = s, lastKnownValues = Map.empty, lastReadTime = Map.empty,
     lastAlertTime = Map.empty, latestReadings = [], trace = []\<rparr>"





text \<open>
  A device that always answers: the float 260.0 in its input registers, the text
  \<open>"ABC"\<close> in its holding registers.
\<close>

definition device_client :: "nat client" where
  "device_client rq s =
     (Returned (Registers (if region rq = Input then [0x4382, 0] else [0x4142, 0x4300, 0, 0])),
      Suc s)"

definition device_reader :: "nat ModbusReader" where
  "device_reader = \<lparr>client = device_client, retries = IntNum 3, delay = 3 / 10\<rparr>"

text \<open>The events of a read: the calls on a session and the sleeps.\<close>

fun wire :: "event \<Rightarrow> bool" where
  "wire (Request _) = True"
| "wire (Sleep _) = True"
| "wire _ = False"

text \<open>The notifications of a trace, and the snapshots it publishes.\<close>

fun notifications :: "event list \<Rightarrow> (string \<times> alert list) list" where
  "notifications [] = []"
| "notifications (Notify name alerts # es) = (name, alerts) # notifications es"
| "notifications (_ # es) = notifications es"

fun published :: "event list \<Rightarrow> (string, row) dict list" where
  "published [] = []"
| "published (Publish d # es) = d # published es"
| "published (_ # es) = published es"

text \<open>\<open>lastAlertTime.get(tagName, 0)\<close> and \<open>lastReadTime.get(cacheKey, 0)\<close>.\<close>

definition last_alert :: "'s world \<Rightarrow> string \<Rightarrow> real" where
  "last_alert w name = (case lastAlertTime w name of None \<Rightarrow> 0 | Some t \<Rightarrow> t)"


text \<open>
  The default thresholds of the program, a register map with a float and a text
  register, the latter declared as an input register, and two tags on one gateway.
\<close>

definition demo_thresholds :: thresholds where
  "demo_thresholds = \<lparr>voltage_low = 200, voltage_high = 250, current_high = 1\<rparr>"

definition voltage_config :: config where
  "voltage_config = \<lparr>register = 3027, regType = Some ''float'',
     registerLength = Some (CountInt 2), regionKind = None\<rparr>"

definition name_config :: config where
  "name_config = \<lparr>register = 100, regType = Some ''ascii'',
     registerLength = Some (CountInt 3), regionKind = Some Input\<rparr>"

definition tag_A :: tagInfo where
  "tag_A = \<lparr>deviceId = 1, tagName = ''A'', gatewayName = ''G''\<rparr>"

definition tag_B :: tagInfo where
  "tag_B = \<lparr>deviceId = 2, tagName = ''B'', gatewayName = ''G''\<rparr>"

definition demo_settings :: "nat settings" where
  "demo_settings = \<lparr>alertCooldown = 300, asciiReadInterval = 600,
     alertThresholds = demo_thresholds,
     registerMap = [(''voltage'', voltage_config), (''name'', name_config)],
     powertags = [tag_A, tag_B],
     modbusReaders = [''G'' \<mapsto> device_reader]\<rparr>"

text \<open>
  Rows of a tag: one with a voltage of 260.0, above the high threshold, one with a
  voltage of 0.0, and one without a voltage and a current.
\<close>

definition row_260 :: row where
  "row_260 = [(''Tag'', PStr ''A''), (''Timestamp'', PFloat (Fin 1000)),
              (''voltage'', PFloat (Fin 260)), (''current'', PNone)]"

definition row_0 :: row where
  "row_0 = [(''Tag'', PStr ''A''), (''Timestamp'', PFloat (Fin 1000)),
            (''voltage'', PFloat (Fin 0)), (''current'', PNone)]"

definition row_bare :: row where
  "row_bare = [(''Tag'', PStr ''A''), (''Timestamp'', PFloat (Fin 1000))]"





section \<open>The retrying read\<close>





text \<open>A negative delay: the first failed attempt ends the call with \<open>ValueError\<close>.\<close>

lemma attempts_negative_delay:
  assumes "delay rd < 0" and "answer rq (fst (client rd rq (net w))) = None"
  shows "\<exists>w'. attempts rd rq (Suc n) w = Inl (ValueError, w')"
  using assms by (cases "client rd rq (net w)") simp

text \<open>The loop touches the sessions and the trace only.\<close>

lemma attempts_frame:
  "lastKnownValues (res_world (attempts rd rq n w)) = lastKnownValues w \<and>
   lastReadTime (res_world (attempts rd rq n w)) = lastReadTime w \<and>
   lastAlertTime (res_world (attempts rd rq n w)) = lastAlertTime w \<and>
   latestReadings (res_world (attempts rd rq n w)) = latestReadings w"
proof (induction n arbitrary: w)
  case 0
  show ?case by (simp add: res_world_def)
next
  case (Suc n)
  obtain out s' where c: "client rd rq (net w) = (out, s')"
    by (cases "client rd rq (net w)")
  show ?case
  proof (cases "answer rq out")
    case (Some regs)
    with c show ?thesis by (simp add: res_world_def emit_def)
  next
    case None
    show ?thesis
    proof (cases "delay rd < 0")
      case True
      with c None show ?thesis by (simp add: res_world_def emit_def)
    next
      case False
      with c None Suc.IH[of "emit (Sleep (delay rd)) (emit (Request rq) (w\<lparr>net := s'\<rparr>))"]
      show ?thesis by (simp add: emit_def)
    qed
  qed
qed





section \<open>Decoding\<close>

lemma ff_mask: "(0xFF :: 'a::len word) = mask 8"
  by (simp add: mask_eq_exp_minus_1)

lemma and_ff: "(x :: 16 word) AND 0xFF = take_bit 8 x"
  by (simp only: ff_mask take_bit_eq_mask)

lemma unat_low_byte: "unat (low_byte r) = unat r mod 256"
  apply (simp only: low_byte_def and_ff)
  apply (simp add: unsigned_ucast_eq unsigned_take_bit_eq take_bit_eq_mod unat_mod)
  done

lemma unat_high_byte: "unat (high_byte r) = unat r div 256"
proof -
  have "unat r < 65536" using unsigned_less[of r] by simp
  then have "unat r div 256 < 256" by simp
  then show ?thesis
    apply (simp only: high_byte_def and_ff)
    apply (simp add: unsigned_ucast_eq unsigned_take_bit_eq take_bit_eq_mod unat_drop_bit_eq
        drop_bit_eq_div unat_mod unat_div)
    done
qed

lemma raw_bytes_unat:
  "map unat (raw_bytes regs) = concat (map (\<lambda>r. [unat r div 256, unat r mod 256]) regs)"
  by (induction regs) (simp_all add: raw_bytes_def unat_high_byte unat_low_byte)

lemma rstrip0_decomp:
  "bs = rstrip0 bs @ replicate (length (takeWhile (\<lambda>b. b = 0) (rev bs))) 0"
proof -
  let ?P = "\<lambda>b :: 8 word. b = 0"
  have z: "takeWhile ?P (rev bs) = replicate (length (takeWhile ?P (rev bs))) 0"
    by (rule replicate_eqI) (auto dest: set_takeWhileD)
  have "rev bs = takeWhile ?P (rev bs) @ dropWhile ?P (rev bs)" by simp
  then have "bs = rev (dropWhile ?P (rev bs)) @ rev (takeWhile ?P (rev bs))"
    by (metis rev_append rev_rev_ident)
  also have "rev (takeWhile ?P (rev bs)) = replicate (length (takeWhile ?P (rev bs))) 0"
    using z by (metis rev_replicate)
  finally show ?thesis by (simp add: rstrip0_def)
qed

lemma rstrip0_last: "rstrip0 bs = [] \<or> last (rstrip0 bs) \<noteq> 0"
proof (cases "dropWhile (\<lambda>b. b = 0) (rev bs) = []")
  case True
  then show ?thesis by (simp add: rstrip0_def)
next
  case False
  then have "hd (dropWhile (\<lambda>b. b = 0) (rev bs)) \<noteq> 0"
    using hd_dropWhile[of "\<lambda>b. b = 0" "rev bs"] by simp
  with False show ?thesis by (simp add: rstrip0_def last_rev)
qed

lemma decode_ascii_ignore_codes:
  "map of_char (decode_ascii_ignore bs) = map unat (filter (\<lambda>b. b < 128) bs)"
proof -
  have "of_char (char_of (unat b)) = unat b" for b :: "8 word"
    using unsigned_less[of b, where ?'a = nat] by simp
  then show ?thesis by (simp add: decode_ascii_ignore_def comp_def)
qed

lemma zero_words_empty: "set regs \<subseteq> {0} \<Longrightarrow> ascii_of regs = []"
proof -
  assume a: "set regs \<subseteq> {0}"
  have "set (raw_bytes regs) \<subseteq> {0}"
    using a by (induction regs) (auto simp: raw_bytes_def high_byte_def low_byte_def)
  then have "dropWhile (\<lambda>b. b = 0) (rev (raw_bytes regs)) = []"
    by (auto simp: dropWhile_eq_Nil_conv)
  then show ?thesis
    by (simp only: ascii_of_def rstrip0_def decode_ascii_ignore_def) simp
qed

lemma ReadAscii_cases:
  "ReadAscii rd addr dev len w =
     (case ReadRegisters rd addr dev len ''holding'' w of
        Inl e \<Rightarrow> Inl e
      | Inr (None, w') \<Rightarrow> Inr (None, w')
      | Inr (Some regs, w') \<Rightarrow>
          Inr (if regs = [] then None
               else Some (decode_ascii_ignore (rstrip0 (raw_bytes regs))), w'))"
proof (cases "ReadRegisters rd addr dev len ''holding'' w")
  case (Inl e)
  then show ?thesis by (simp add: ReadAscii_def)
next
  case (Inr p)
  obtain r w' where p: "p = (r, w')" by (cases p)
  show ?thesis
  proof (cases r)
    case None
    with Inr p show ?thesis by (simp add: ReadAscii_def)
  next
    case (Some regs)
    with Inr p show ?thesis by (cases regs) (simp_all add: ReadAscii_def ascii_of_def)
  qed
qed

text \<open>
  C9, as amended. \<open>ReadAscii\<close> reads from the holding region. When the read returns at
  least one word, the result is the string decoded from the words: the bytes are each
  word's high byte and then its low byte; the trailing zero bytes are stripped (what is
  left is the bytes without a run of zeros at the end, and is empty or ends in a byte
  that is not zero); the bytes below 128 give the characters, in order, and the others
  are dropped. Words that are all zero give the empty string. When the read fails or
  returns no word, the result is \<open>None\<close>. \<open>ReadAscii\<close> raises only what the read raises.
\<close>

theorem ReadAscii_decodes:
  "ReadAscii rd addr dev len w =
     (case ReadRegisters rd addr dev len ''holding'' w of
        Inl e \<Rightarrow> Inl e
      | Inr (None, w') \<Rightarrow> Inr (None, w')
      | Inr (Some regs, w') \<Rightarrow>
          Inr (if regs = [] then None
               else Some (decode_ascii_ignore (rstrip0 (raw_bytes regs))), w')) \<and>
   map unat (raw_bytes regs) = concat (map (\<lambda>r. [unat r div 256, unat r mod 256]) regs) \<and>
   (\<exists>n. bs = rstrip0 bs @ replicate n 0) \<and>
   (rstrip0 bs = [] \<or> last (rstrip0 bs) \<noteq> 0) \<and>
   map of_char (decode_ascii_ignore bs) = map unat (filter (\<lambda>b. b < 128) bs) \<and>
   (set regs \<subseteq> {0} \<longrightarrow> decode_ascii_ignore (rstrip0 (raw_bytes regs)) = [])"
proof -
  have "\<exists>n. bs = rstrip0 bs @ replicate n 0"
    using rstrip0_decomp[of bs] by blast
  moreover have "set regs \<subseteq> {0} \<longrightarrow> decode_ascii_ignore (rstrip0 (raw_bytes regs)) = []"
    using zero_words_empty[of regs] by (simp add: ascii_of_def)
  ultimately show ?thesis
    using ReadAscii_cases[of rd addr dev len w] raw_bytes_unat[of regs] rstrip0_last[of bs]
      decode_ascii_ignore_codes[of bs]
    by blast
qed

lemma device_read_text:
  "ReadRegisters device_reader 100 1 (CountInt 3) ''holding'' (init_world 0) =
     Inr (Some [0x4142, 0x4300, 0],
      \<lparr>net = 1, lastKnownValues = Map.empty, lastReadTime = Map.empty,
        lastAlertTime = Map.empty, latestReadings = [],
        trace = [Request (make_request 100 1 (CountInt 3) ''holding'')]\<rparr>)"
  by (simp add: ReadRegisters_def device_reader_def device_client_def init_world_def emit_def
      slice_to_def eval_nat_numeral make_request_def)

theorem ReadAscii_decodes_witness:
  "fst (projr (ReadAscii device_reader 100 1 (CountInt 3) (init_world 0))) = Some ''ABC'' \<and>
   set [0, 0 :: 16 word] \<subseteq> {0} \<and> decode_ascii_ignore (rstrip0 (raw_bytes [0, 0])) = []"
proof -
  have d: "decode_ascii_ignore (rstrip0 (raw_bytes [0x4142, 0x4300, 0])) = ''ABC''"
    by code_simp
  have z: "set [0, 0 :: 16 word] \<subseteq> {0}" by simp
  from ReadAscii_decodes[of device_reader 100 1 "CountInt 3" "init_world 0" "[0, 0]" "[]"]
  have "ReadAscii device_reader 100 1 (CountInt 3) (init_world 0) =
     (case ReadRegisters device_reader 100 1 (CountInt 3) ''holding'' (init_world 0) of
        Inl e \<Rightarrow> Inl e
      | Inr (None, w') \<Rightarrow> Inr (None, w')
      | Inr (Some regs, w') \<Rightarrow>
          Inr (if regs = [] then None
               else Some (decode_ascii_ignore (rstrip0 (raw_bytes regs))), w'))"
    and "set [0, 0 :: 16 word] \<subseteq> {0} \<longrightarrow> decode_ascii_ignore (rstrip0 (raw_bytes [0, 0])) = []"
    by blast+
  then show ?thesis using z d by (simp add: device_read_text)
qed

text \<open>
  C9 as stated fails for a read that returns no word: the result is \<open>None\<close>, not the
  empty string that decoding no bytes gives.
\<close>

theorem ReadAscii_no_words_counterexample:
  "(\<exists>w'. ReadRegisters device_reader 100 1 (CountInt 0) ''holding'' (init_world 0) =
          Inr (Some [], w')) \<and>
   (\<exists>w'. ReadAscii device_reader 100 1 (CountInt 0) (init_world 0) = Inr (None, w')) \<and>
   decode_ascii_ignore (rstrip0 (raw_bytes [])) = ''''"
  by (simp add: ReadAscii_def ReadRegisters_def device_reader_def device_client_def
      init_world_def emit_def slice_to_def eval_nat_numeral decode_ascii_ignore_def rstrip0_def
      raw_bytes_def make_request_def)

lemma be32_pack: "be32 (pack_HH r0 r1) = push_bit 16 (ucast r0) OR ucast r1"
  apply (simp only: be32_def pack_HH_def high_byte_def low_byte_def and_ff)
  apply (rule bit_word_eqI)
  apply (auto simp add: bit_simps dest: bit_imp_le_length)
  done

text \<open>The float is the one whose bit pattern has word 0 as its high half.\<close>

lemma ReadFloat_cases:
  "ReadFloat rd addr dev len w =
     (case ReadRegisters rd addr dev len ''input'' w of
        Inl e \<Rightarrow> Inl e
      | Inr (None, w') \<Rightarrow> Inr (PNone, w')
      | Inr (Some [], w') \<Rightarrow> Inr (PNone, w')
      | Inr (Some [r0], w') \<Rightarrow> Inl (IndexError, w')
      | Inr (Some (r0 # r1 # rest), w') \<Rightarrow>
          Inr (PFloat (round2 (float32 (push_bit 16 (ucast r0) OR ucast r1))), w'))"
  by (simp add: ReadFloat_def unpack_f_def be32_pack
      split: sum.splits prod.splits option.splits list.splits)

lemma round_half_even_near: "\<bar>of_int (round_half_even x) - x\<bar> \<le> 1 / 2"
  unfolding round_half_even_def Let_def by (auto; linarith)

lemma round2_two_decimals:
  "round2 (Fin x) = Fin y \<Longrightarrow> (\<exists>k :: int. y = of_int k / 100) \<and> \<bar>y - x\<bar> \<le> 1 / 200"
proof -
  assume "round2 (Fin x) = Fin y"
  then have y: "y = of_int (round_half_even (x * 100)) / 100" by simp
  have "\<bar>of_int (round_half_even (x * 100)) - x * 100\<bar> \<le> 1 / 2"
    by (rule round_half_even_near)
  then have "\<bar>y - x\<bar> \<le> 1 / 200" unfolding y by (simp add: field_simps abs_le_iff)
  with y show ?thesis by blast
qed

text \<open>
  C2 fails on the code for a read of one word: \<open>not registers\<close> is false for a list of
  one word, and \<open>registers[1]\<close> raises \<open>IndexError\<close>, where the claim has \<open>None\<close>.
  The device answers a request for one word with the one word \<open>0x4382\<close>.
\<close>

theorem ReadFloat_one_word_raises:
  "(\<exists>w'. ReadRegisters device_reader 3027 1 (CountInt 1) ''input'' (init_world 0) =
          Inr (Some [0x4382], w')) \<and>
   (\<exists>w'. ReadFloat device_reader 3027 1 (CountInt 1) (init_world 0) = Inl (IndexError, w'))"
  by (simp add: ReadFloat_def ReadRegisters_def device_reader_def device_client_def init_world_def
      emit_def slice_to_def eval_nat_numeral make_request_def)

lemma float_260: "round2 (unpack_f (pack_HH 0x4382 0)) = Fin 260"
proof -
  have b: "be32 (pack_HH 0x4382 0) = 0x43820000"
    by (simp add: be32_def pack_HH_def high_byte_def low_byte_def)
  have f: "float32 0x43820000 = Fin 260"
    by (simp add: float32_def Let_def)
  show ?thesis by (simp add: unpack_f_def b f round_half_even_def)
qed

lemma device_read_float:
  "ReadRegisters device_reader 3027 1 (CountInt 2) ''input'' (init_world 0) =
     Inr (Some [0x4382, 0],
      \<lparr>net = 1, lastKnownValues = Map.empty, lastReadTime = Map.empty,
        lastAlertTime = Map.empty, latestReadings = [],
        trace = [Request (make_request 3027 1 (CountInt 2) ''input'')]\<rparr>)"
  by (simp add: ReadRegisters_def device_reader_def device_client_def init_world_def emit_def
      slice_to_def eval_nat_numeral make_request_def)

lemma ReadFloat_device:
  "\<exists>w'. ReadFloat device_reader 3027 1 (CountInt 2) (init_world 0) = Inr (PFloat (Fin 260), w')"
  by (simp add: ReadFloat_def device_read_float float_260)

section \<open>The effects of the reads\<close>

lemma since_append: "trace w' = trace w @ es \<Longrightarrow> since w w' = es"
  by (simp add: since_def)

lemma since_same: "since w w = []"
  by (simp add: since_def)

lemma n_requests_append: "n_requests (xs @ ys) = n_requests xs + n_requests ys"
  by (simp add: n_requests_def)

lemma requested_regions_append:
  "requested_regions (xs @ ys) = requested_regions xs @ requested_regions ys"
  by (induction xs rule: requested_regions.induct) simp_all

lemma notifications_append: "notifications (xs @ ys) = notifications xs @ notifications ys"
  by (induction xs rule: notifications.induct) simp_all

lemma published_append: "published (xs @ ys) = published xs @ published ys"
  by (induction xs rule: published.induct) simp_all

lemma wire_quiet: "list_all wire es \<Longrightarrow> notifications es = [] \<and> published es = []"
proof (induction es)
  case Nil
  show ?case by simp
next
  case (Cons e es)
  then show ?case by (cases e) simp_all
qed

text \<open>A read calls the session with its own request and sleeps, and touches nothing else.\<close>

lemma attempts_effect:
  "\<exists>s es. res_world (attempts rd rq n w) = w\<lparr>net := s, trace := trace w @ es\<rparr> \<and>
     list_all (\<lambda>e. e = Request rq \<or> e = Sleep (delay rd)) es \<and>
     (0 < n \<longrightarrow> es \<noteq> [] \<and> hd es = Request rq)"
proof (induction n arbitrary: w)
  case 0
  have "res_world (attempts rd rq 0 w) = w\<lparr>net := net w, trace := trace w @ []\<rparr>"
    by (simp add: res_world_def)
  then show ?case by (intro exI[of _ "net w"] exI[of _ "[]"]) simp
next
  case (Suc n)
  obtain out s' where c: "client rd rq (net w) = (out, s')"
    by (cases "client rd rq (net w)")
  have one: "emit (Request rq) (w\<lparr>net := s'\<rparr>) = w\<lparr>net := s', trace := trace w @ [Request rq]\<rparr>"
    by (simp add: emit_def)
  show ?case
  proof (cases "answer rq out = None \<and> \<not> delay rd < 0")
    case False
    then have "res_world (attempts rd rq (Suc n) w) = w\<lparr>net := s', trace := trace w @ [Request rq]\<rparr>"
      using c one by (cases "answer rq out") (simp_all add: res_world_def)
    then show ?thesis by (intro exI[of _ s'] exI[of _ "[Request rq]"]) simp
  next
    case True
    let ?w2 = "emit (Sleep (delay rd)) (emit (Request rq) (w\<lparr>net := s'\<rparr>))"
    have w2: "?w2 = w\<lparr>net := s', trace := trace w @ [Request rq, Sleep (delay rd)]\<rparr>"
      by (simp add: emit_def)
    have step: "attempts rd rq (Suc n) w = attempts rd rq n ?w2"
      using c True by simp
    from Suc.IH[of ?w2] obtain s es where
      r: "res_world (attempts rd rq n ?w2) = ?w2\<lparr>net := s, trace := trace ?w2 @ es\<rparr>" and
      l: "list_all (\<lambda>e. e = Request rq \<or> e = Sleep (delay rd)) es"
      by blast
    have "res_world (attempts rd rq (Suc n) w) =
            w\<lparr>net := s, trace := trace w @ ([Request rq, Sleep (delay rd)] @ es)\<rparr>"
      unfolding step r by (simp add: w2)
    moreover have "list_all (\<lambda>e. e = Request rq \<or> e = Sleep (delay rd))
                     ([Request rq, Sleep (delay rd)] @ es)"
      using l by simp
    ultimately show ?thesis
      by (intro exI[of _ s] exI[of _ "[Request rq, Sleep (delay rd)] @ es"]) simp
  qed
qed

lemma ReadRegisters_effect:
  "\<exists>s es. res_world (ReadRegisters rd addr dev cnt ty w) = w\<lparr>net := s, trace := trace w @ es\<rparr> \<and>
     list_all (\<lambda>e. e = Request (make_request addr dev cnt ty) \<or> e = Sleep (delay rd)) es \<and>
     (\<forall>n. retries rd = IntNum n \<longrightarrow> 0 < n \<longrightarrow>
        es \<noteq> [] \<and> hd es = Request (make_request addr dev cnt ty))"
proof (cases "retries rd")
  case (FloatNum x)
  then have "res_world (ReadRegisters rd addr dev cnt ty w) = w\<lparr>net := net w, trace := trace w @ []\<rparr>"
    by (simp add: ReadRegisters_def res_world_def)
  then show ?thesis using FloatNum by (intro exI[of _ "net w"] exI[of _ "[]"]) simp
next
  case (IntNum n)
  then have r: "ReadRegisters rd addr dev cnt ty w =
                  attempts rd (make_request addr dev cnt ty) (nat n) w"
    by (simp add: ReadRegisters_def)
  from attempts_effect[of rd "make_request addr dev cnt ty" "nat n" w] IntNum
  show ?thesis unfolding r by auto
qed

lemma ReadFloat_world:
  "res_world (ReadFloat rd addr dev len w) = res_world (ReadRegisters rd addr dev len ''input'' w)"
  by (simp add: ReadFloat_def res_world_def split: sum.splits prod.splits)

lemma ReadAscii_world:
  "res_world (ReadAscii rd addr dev len w) = res_world (ReadRegisters rd addr dev len ''holding'' w)"
  by (simp add: ReadAscii_def res_world_def split: sum.splits prod.splits)

lemma regions_of_read:
  "list_all (\<lambda>e. e = Request rq \<or> e = Sleep x) es \<Longrightarrow>
     requested_regions es = replicate (n_requests es) (region rq) \<and> list_all wire es"
  by (induction es) (auto simp: n_requests_def)

lemma requests_of_read: "es \<noteq> [] \<Longrightarrow> hd es = Request rq \<Longrightarrow> 0 < n_requests es"
  by (cases es) (simp_all add: n_requests_def)

text \<open>What a read leaves of the state, and the regions it asks for.\<close>

lemma ReadRegisters_since:
  "\<exists>s. res_world (ReadRegisters rd addr dev cnt ty w) =
          w\<lparr>net := s, trace := trace w @ since w (res_world (ReadRegisters rd addr dev cnt ty w))\<rparr>"
proof -
  from ReadRegisters_effect[of rd addr dev cnt ty w] obtain s es where
    r: "res_world (ReadRegisters rd addr dev cnt ty w) = w\<lparr>net := s, trace := trace w @ es\<rparr>"
    by blast
  have "since w (w\<lparr>net := s, trace := trace w @ es\<rparr>) = es"
    by (simp add: since_def)
  then show ?thesis unfolding r by (intro exI[of _ s]) simp
qed

lemma ReadRegisters_regions:
  "requested_regions (since w (res_world (ReadRegisters rd addr dev cnt ty w))) =
     replicate (n_requests (since w (res_world (ReadRegisters rd addr dev cnt ty w))))
       (if ty = ''input'' then Input else Holding) \<and>
   list_all wire (since w (res_world (ReadRegisters rd addr dev cnt ty w))) \<and>
   (retries rd = IntNum n \<and> 0 < n \<longrightarrow>
      0 < n_requests (since w (res_world (ReadRegisters rd addr dev cnt ty w))))"
proof -
  let ?rq = "make_request addr dev cnt ty"
  from ReadRegisters_effect[of rd addr dev cnt ty w] obtain s es where
    r: "res_world (ReadRegisters rd addr dev cnt ty w) = w\<lparr>net := s, trace := trace w @ es\<rparr>" and
    l: "list_all (\<lambda>e. e = Request ?rq \<or> e = Sleep (delay rd)) es" and
    h: "\<forall>n. retries rd = IntNum n \<longrightarrow> 0 < n \<longrightarrow> es \<noteq> [] \<and> hd es = Request ?rq"
    by blast
  have s: "since w (res_world (ReadRegisters rd addr dev cnt ty w)) = es"
    unfolding r by (simp add: since_def)
  have g: "region ?rq = (if ty = ''input'' then Input else Holding)"
    by (simp add: make_request_def)
  from regions_of_read[OF l] requests_of_read[of es ?rq] h show ?thesis
    unfolding s g by blast
qed

section \<open>The text cache\<close>

lemma store_ascii_fields:
  "trace (store_ascii k t val w) = trace w \<and> net (store_ascii k t val w) = net w \<and>
   latestReadings (store_ascii k t val w) = latestReadings w \<and>
   lastAlertTime (store_ascii k t val w) = lastAlertTime w"
  by (cases val) (simp_all add: store_ascii_def)

lemma cached_ascii_fresh:
  "\<not> stale interval t k w \<Longrightarrow> cached_ascii interval rd t dev k cfg w = Inr (known k w, w)"
  by (simp add: cached_ascii_def)

lemma cached_ascii_no_length:
  "stale interval t k w \<Longrightarrow> registerLength cfg = None \<Longrightarrow>
   cached_ascii interval rd t dev k cfg w = Inl (KeyError, w)"
  by (simp add: cached_ascii_def)

lemma cached_ascii_raises:
  "stale interval t k w \<Longrightarrow> registerLength cfg = Some len \<Longrightarrow>
   ReadAscii rd (register cfg) dev len w = Inl e \<Longrightarrow>
   cached_ascii interval rd t dev k cfg w = Inl e"
  by (simp add: cached_ascii_def)

lemma cached_ascii_reads:
  "stale interval t k w \<Longrightarrow> registerLength cfg = Some len \<Longrightarrow>
   ReadAscii rd (register cfg) dev len w = Inr (val, w1) \<Longrightarrow>
   cached_ascii interval rd t dev k cfg w =
     Inr (known k (store_ascii k t val w1), store_ascii k t val w1)"
  by (simp add: cached_ascii_def)

lemma cached_ascii_since:
  "since w (res_world (cached_ascii interval rd t dev k cfg w)) =
     (if stale interval t k w
      then (case registerLength cfg of
              None \<Rightarrow> []
            | Some len \<Rightarrow> since w (res_world (ReadAscii rd (register cfg) dev len w)))
      else [])"
proof (cases "stale interval t k w")
  case False
  then show ?thesis by (simp add: cached_ascii_fresh res_world_def since_def)
next
  case True
  show ?thesis
  proof (cases "registerLength cfg")
    case None
    with True show ?thesis by (simp add: cached_ascii_no_length res_world_def since_def)
  next
    case (Some len)
    show ?thesis
    proof (cases "ReadAscii rd (register cfg) dev len w")
      case (Inl e)
      with True Some show ?thesis by (simp add: cached_ascii_raises res_world_def)
    next
      case (Inr p)
      obtain val w1 where p: "p = (val, w1)" by (cases p)
      from True Some Inr p show ?thesis
        by (simp add: cached_ascii_reads res_world_def since_def store_ascii_fields)
    qed
  qed
qed

section \<open>The region of a read\<close>

lemma cached_ascii_kind:
  "cached_ascii interval rd t dev k (cfg\<lparr>regionKind := kind\<rparr>) w =
   cached_ascii interval rd t dev k cfg w"
  by (cases "stale interval t k w"; cases "registerLength cfg") (simp_all add: cached_ascii_def)

lemma read_value_float:
  "modbusReaders st (gatewayName tag) = Some rd \<Longrightarrow>
   regType cfg = None \<or> regType cfg = Some ''float'' \<Longrightarrow>
   read_value st t tag key cfg w =
     ReadFloat rd (register cfg) (deviceId tag)
       (case registerLength cfg of None \<Rightarrow> CountOther | Some len \<Rightarrow> len) w"
  by (auto simp: read_value_def)

lemma read_value_ascii:
  "modbusReaders st (gatewayName tag) = Some rd \<Longrightarrow> regType cfg = Some ''ascii'' \<Longrightarrow>
   read_value st t tag key cfg w =
     cached_ascii (asciiReadInterval st) rd t (deviceId tag) (tagName tag @ ''_'' @ key) cfg w"
  by (simp add: read_value_def)

lemma read_value_no_reader:
  "modbusReaders st (gatewayName tag) = None \<Longrightarrow>
   read_value st t tag key cfg w = Inl (KeyError, w)"
  by (simp add: read_value_def)

lemma read_value_other:
  "modbusReaders st (gatewayName tag) = Some rd \<Longrightarrow>
   regType cfg \<noteq> None \<Longrightarrow> regType cfg \<noteq> Some ''float'' \<Longrightarrow> regType cfg \<noteq> Some ''ascii'' \<Longrightarrow>
   read_value st t tag key cfg w = Inr (PNone, w)"
  by (cases "regType cfg") (simp_all add: read_value_def)

lemma n_requests_Nil: "n_requests [] = 0"
  by (simp add: n_requests_def)

lemma read_value_float_regions:
  assumes "regType cfg = None \<or> regType cfg = Some ''float''"
  shows "requested_regions (since w (res_world (read_value st t tag key cfg w))) =
     replicate (n_requests (since w (res_world (read_value st t tag key cfg w)))) Input"
proof (cases "modbusReaders st (gatewayName tag)")
  case None
  then show ?thesis
    by (simp add: read_value_no_reader res_world_def since_same n_requests_Nil)
next
  case (Some rd)
  show ?thesis
    unfolding read_value_float[OF Some assms] ReadFloat_world
    using ReadRegisters_regions[of w rd "register cfg" "deviceId tag" _ "''input''"]
    by simp
qed

lemma read_value_ascii_regions:
  assumes "regType cfg = Some ''ascii''"
  shows "requested_regions (since w (res_world (read_value st t tag key cfg w))) =
     replicate (n_requests (since w (res_world (read_value st t tag key cfg w)))) Holding"
proof (cases "modbusReaders st (gatewayName tag)")
  case None
  then show ?thesis
    by (simp add: read_value_no_reader res_world_def since_same n_requests_Nil)
next
  case (Some rd)
  have h: "requested_regions (since w (res_world (ReadAscii rd (register cfg) (deviceId tag) len w))) =
     replicate (n_requests (since w (res_world (ReadAscii rd (register cfg) (deviceId tag) len w))))
       Holding" for len
    unfolding ReadAscii_world
    using ReadRegisters_regions[of w rd "register cfg" "deviceId tag" len "''holding''"]
    by simp
  show ?thesis
    unfolding read_value_ascii[OF Some assms] cached_ascii_since
    using h by (simp add: n_requests_Nil split: option.splits)
qed

text \<open>
  C10. The calls of \<open>ReadFloat\<close> all ask for input registers and the calls of
  \<open>ReadAscii\<close> all ask for holding registers, and with a positive retry count each makes
  at least one call. In \<open>Run\<close>, the value of a register does not depend on the region its
  entry declares: the calls made for an entry of type \<open>"float"\<close> (or of no type) all ask
  for input registers, those for an entry of type \<open>"ascii"\<close> all for holding registers.
\<close>

theorem regions_by_encoding:
  "requested_regions (since w (res_world (ReadFloat rd addr dev len w))) =
     replicate (n_requests (since w (res_world (ReadFloat rd addr dev len w)))) Input \<and>
   requested_regions (since w (res_world (ReadAscii rd addr dev len w))) =
     replicate (n_requests (since w (res_world (ReadAscii rd addr dev len w)))) Holding \<and>
   (retries rd = IntNum n \<and> 0 < n \<longrightarrow>
      0 < n_requests (since w (res_world (ReadFloat rd addr dev len w))) \<and>
      0 < n_requests (since w (res_world (ReadAscii rd addr dev len w)))) \<and>
   read_value st t tag key (cfg\<lparr>regionKind := kind\<rparr>) w = read_value st t tag key cfg w \<and>
   (regType cfg = None \<or> regType cfg = Some ''float'' \<longrightarrow>
      requested_regions (since w (res_world (read_value st t tag key cfg w))) =
        replicate (n_requests (since w (res_world (read_value st t tag key cfg w)))) Input) \<and>
   (regType cfg = Some ''ascii'' \<longrightarrow>
      requested_regions (since w (res_world (read_value st t tag key cfg w))) =
        replicate (n_requests (since w (res_world (read_value st t tag key cfg w)))) Holding)"
proof -
  have k: "read_value st t tag key (cfg\<lparr>regionKind := kind\<rparr>) w = read_value st t tag key cfg w"
    by (cases "modbusReaders st (gatewayName tag)")
      (simp_all add: read_value_def cached_ascii_kind cong: if_cong)
  from ReadRegisters_regions[of w rd addr dev len "''input''" n]
    ReadRegisters_regions[of w rd addr dev len "''holding''" n]
    read_value_float_regions[of cfg w st t tag key]
    read_value_ascii_regions[of cfg w st t tag key] k
  show ?thesis
    unfolding ReadFloat_world ReadAscii_world by simp
qed

lemma device_ReadRegisters:
  "ReadRegisters device_reader addr dev (CountInt c) ty w =
     Inr (Some (slice_to c (if ty = ''input'' then [0x4382, 0] else [0x4142, 0x4300, 0, 0])),
          emit (Request (make_request addr dev (CountInt c) ty)) (w\<lparr>net := Suc (net w)\<rparr>))"
  by (simp add: ReadRegisters_def device_reader_def device_client_def make_request_def
      eval_nat_numeral)

lemma device_ReadFloat:
  "ReadFloat device_reader addr dev (CountInt 2) w =
     Inr (PFloat (Fin 260),
          emit (Request (make_request addr dev (CountInt 2) ''input'')) (w\<lparr>net := Suc (net w)\<rparr>))"
  by (simp add: ReadFloat_def device_ReadRegisters slice_to_def float_260)

lemma text_ABC: "ascii_of [0x4142, 0x4300, 0] = ''ABC''"
  by code_simp

lemma device_ReadAscii:
  "ReadAscii device_reader addr dev (CountInt 3) w =
     Inr (Some ''ABC'',
          emit (Request (make_request addr dev (CountInt 3) ''holding'')) (w\<lparr>net := Suc (net w)\<rparr>))"
  by (simp add: ReadAscii_def device_ReadRegisters slice_to_def eval_nat_numeral text_ABC)

lemma since_emit: "since w (emit e (w\<lparr>net := s\<rparr>)) = [e]"
  by (simp add: since_def emit_def)

theorem regions_by_encoding_witness:
  "(retries device_reader = IntNum 3 \<and> (0 :: int) < 3) \<and>
   0 < n_requests (since (init_world 0)
         (res_world (ReadFloat device_reader 3027 1 (CountInt 2) (init_world 0)))) \<and>
   requested_regions (since (init_world 0)
         (res_world (ReadFloat device_reader 3027 1 (CountInt 2) (init_world 0)))) = [Input] \<and>
   requested_regions (since (init_world 0)
         (res_world (ReadAscii device_reader 100 1 (CountInt 3) (init_world 0)))) = [Holding] \<and>
   regType name_config = Some ''ascii'' \<and> regionKind name_config = Some Input \<and>
   requested_regions (since (init_world 0)
         (res_world (read_value demo_settings 1000 tag_A ''name'' name_config (init_world 0)))) =
     [Holding]"
proof -
  have h: "retries device_reader = IntNum 3 \<and> (0 :: int) < 3"
    by (simp add: device_reader_def)
  have a: "regType name_config = Some ''ascii''" and b: "regionKind name_config = Some Input"
    by (simp_all add: name_config_def)
  have f: "requested_regions (since (init_world 0)
         (res_world (ReadFloat device_reader 3027 1 (CountInt 2) (init_world 0)))) = [Input]"
    by (simp add: device_ReadFloat res_world_def since_emit make_request_def)
  have g: "requested_regions (since (init_world 0)
         (res_world (ReadAscii device_reader 100 1 (CountInt 3) (init_world 0)))) = [Holding]"
    by (simp add: device_ReadAscii res_world_def since_emit make_request_def)
  have r: "read_value demo_settings 1000 tag_A ''name'' name_config (init_world 0) =
             cached_ascii 600 device_reader 1000 1 ''A_name'' name_config (init_world 0)"
    by (simp add: read_value_def demo_settings_def tag_A_def name_config_def)
  have s: "stale 600 1000 ''A_name'' (init_world (0 :: nat))"
    by (simp add: stale_def init_world_def)
  have l: "registerLength name_config = Some (CountInt 3)" and q: "register name_config = 100"
    by (simp_all add: name_config_def)
  have v: "requested_regions (since (init_world 0)
         (res_world (read_value demo_settings 1000 tag_A ''name'' name_config (init_world 0)))) =
     [Holding]"
    unfolding r cached_ascii_since using s l q g by simp
  from regions_by_encoding[of "init_world 0" device_reader 3027 1 "CountInt 2" 3] h
  have "0 < n_requests (since (init_world 0)
         (res_world (ReadFloat device_reader 3027 1 (CountInt 2) (init_world 0))))"
    by blast
  with h a b f g v show ?thesis by blast
qed

section \<open>Alerts\<close>

text \<open>What \<open>CheckAlerts\<close> returns for a voltage and a current that are finite and not zero.\<close>

lemma CheckAlerts_nonzero:
  assumes "map_of readings ''voltage'' = Some (PFloat (Fin v))" and "v \<noteq> 0"
    and "map_of readings ''current'' = Some (PFloat (Fin c))" and "c \<noteq> 0"
  shows "CheckAlerts th readings =
     Inr ((if v > voltage_high th then [HighVoltage (PFloat (Fin v))]
           else if v < voltage_low th then [LowVoltage (PFloat (Fin v))] else []) @
          (if c > current_high th then [HighCurrent (PFloat (Fin c))] else []))"
  using assms by (simp add: CheckAlerts_def check_voltage_def check_current_def dict_get_def)

text \<open>A value of \<open>None\<close> gives no alert and no error.\<close>

lemma CheckAlerts_none:
  assumes "map_of readings ''voltage'' = Some PNone" and "map_of readings ''current'' = Some PNone"
  shows "CheckAlerts th readings = Inr []"
  using assms by (simp add: CheckAlerts_def check_voltage_def check_current_def dict_get_def)

text \<open>
  C1 fails on the code. A voltage of \<open>0.0\<close> is present and below the low threshold of
  200, and no alert is emitted: \<open>if voltage:\<close> is false for \<open>0.0\<close>. A row without the
  keys \<open>"voltage"\<close> and \<open>"current"\<close> raises \<open>TypeError\<close>: \<open>readings.get\<close> has the
  default \<open>"float"\<close>, a string that is compared with the threshold.
\<close>

theorem CheckAlerts_zero_and_absent:
  "map_of row_0 ''voltage'' = Some (PFloat (Fin 0)) \<and> (0 :: real) < voltage_low demo_thresholds \<and>
   CheckAlerts demo_thresholds row_0 = Inr [] \<and>
   map_of row_bare ''voltage'' = None \<and> map_of row_bare ''current'' = None \<and>
   CheckAlerts demo_thresholds row_bare = Inl TypeError"
  by (simp add: CheckAlerts_def check_voltage_def check_current_def dict_get_def
      demo_thresholds_def row_0_def row_bare_def)

section \<open>The cooldown of notifications\<close>

lemma last_alert_dispatch:
  "dispatch cooldown t name alerts w =
     (if alerts \<noteq> [] \<and> t - last_alert w name > cooldown
      then (emit (Notify name alerts) w)\<lparr>lastAlertTime := (lastAlertTime w)(name \<mapsto> t)\<rparr>
      else w)"
  by (simp add: dispatch_def last_alert_def)

lemma finish_tag_checked:
  assumes "CheckAlerts (alertThresholds st) row = Inr alerts"
  shows "finish_tag st t tag d row w =
     Inr (setitem (tagName tag) row d,
          dispatch (alertCooldown st) t (tagName tag) alerts
            (emit (Evaluate row) (emit (Log row) w)))"
  using assms by (simp add: finish_tag_def)

lemma finish_tag_raises:
  assumes "CheckAlerts (alertThresholds st) row = Inl e"
  shows "finish_tag st t tag d row w = Inl (e, emit (Evaluate row) (emit (Log row) w))"
  using assms by (simp add: finish_tag_def)

lemma finish_tag_since:
  assumes "CheckAlerts (alertThresholds st) row = Inr alerts"
  shows "since w (res_world (finish_tag st t tag d row w)) =
     [Log row, Evaluate row] @
     (if alerts \<noteq> [] \<and> t - last_alert w (tagName tag) > alertCooldown st
      then [Notify (tagName tag) alerts] else [])"
  unfolding finish_tag_checked[OF assms] last_alert_dispatch
  by (simp add: res_world_def since_def emit_def last_alert_def)

lemma finish_tag_lastAlertTime:
  assumes "CheckAlerts (alertThresholds st) row = Inr alerts"
  shows "lastAlertTime (res_world (finish_tag st t tag d row w)) =
     (if alerts \<noteq> [] \<and> t - last_alert w (tagName tag) > alertCooldown st
      then (lastAlertTime w)(tagName tag \<mapsto> t) else lastAlertTime w)"
  unfolding finish_tag_checked[OF assms] last_alert_dispatch
  by (simp add: res_world_def emit_def last_alert_def)

text \<open>
  C8, as amended. When \<open>Run\<close> has checked the row of an entity at the cycle's time \<open>t\<close>
  and the check gave the alerts \<open>alerts\<close>: one notification that carries all of them is
  sent if there is an alert and \<open>t\<close> minus the entity's last alert time is more than the
  cooldown, where an entity without an earlier alert has the last alert time 0; nothing
  is sent otherwise. The last alert time of the entity becomes \<open>t\<close> when the notification
  is sent and is unchanged when it is not, and that of every other entity is unchanged.
  So after a notification at \<open>t\<close>, a check at \<open>t2\<close> with \<open>t2 - t\<close> at most the cooldown
  sends nothing and leaves the time at \<open>t\<close>, and a check at \<open>t3\<close> with \<open>t3 - t\<close> more
  than the cooldown sends the next notification.
\<close>

theorem alerts_cooldown:
  assumes "CheckAlerts (alertThresholds st) row = Inr alerts"
  shows "notifications (since w (res_world (finish_tag st t tag d row w))) =
       (if alerts \<noteq> [] \<and> t - last_alert w (tagName tag) > alertCooldown st
        then [(tagName tag, alerts)] else []) \<and>
     lastAlertTime (res_world (finish_tag st t tag d row w)) =
       (if alerts \<noteq> [] \<and> t - last_alert w (tagName tag) > alertCooldown st
        then (lastAlertTime w)(tagName tag \<mapsto> t) else lastAlertTime w) \<and>
     last_alert w (tagName tag) = (case lastAlertTime w (tagName tag) of None \<Rightarrow> 0 | Some t0 \<Rightarrow> t0) \<and>
     (alerts \<noteq> [] \<and> t - last_alert w (tagName tag) > alertCooldown st \<longrightarrow>
        (\<forall>w2 t2 d2 row2 alerts2.
           CheckAlerts (alertThresholds st) row2 = Inr alerts2 \<and>
           lastAlertTime w2 (tagName tag) =
             lastAlertTime (res_world (finish_tag st t tag d row w)) (tagName tag) \<longrightarrow>
           (t2 - t \<le> alertCooldown st \<longrightarrow>
              notifications (since w2 (res_world (finish_tag st t2 tag d2 row2 w2))) = [] \<and>
              lastAlertTime (res_world (finish_tag st t2 tag d2 row2 w2)) (tagName tag) = Some t) \<and>
           (t2 - t > alertCooldown st \<and> alerts2 \<noteq> [] \<longrightarrow>
              notifications (since w2 (res_world (finish_tag st t2 tag d2 row2 w2))) =
                [(tagName tag, alerts2)])))"
proof -
  let ?fire = "alerts \<noteq> [] \<and> t - last_alert w (tagName tag) > alertCooldown st"
  have n: "notifications (since w (res_world (finish_tag st t tag d row w))) =
             (if ?fire then [(tagName tag, alerts)] else [])"
    by (simp add: finish_tag_since[OF assms])
  have l: "lastAlertTime (res_world (finish_tag st t tag d row w)) =
             (if ?fire then (lastAlertTime w)(tagName tag \<mapsto> t) else lastAlertTime w)"
    by (rule finish_tag_lastAlertTime[OF assms])
  have k: "last_alert w (tagName tag) =
             (case lastAlertTime w (tagName tag) of None \<Rightarrow> 0 | Some t0 \<Rightarrow> t0)"
    by (simp add: last_alert_def)
  have s: "?fire \<longrightarrow>
        (\<forall>w2 t2 d2 row2 alerts2.
           CheckAlerts (alertThresholds st) row2 = Inr alerts2 \<and>
           lastAlertTime w2 (tagName tag) =
             lastAlertTime (res_world (finish_tag st t tag d row w)) (tagName tag) \<longrightarrow>
           (t2 - t \<le> alertCooldown st \<longrightarrow>
              notifications (since w2 (res_world (finish_tag st t2 tag d2 row2 w2))) = [] \<and>
              lastAlertTime (res_world (finish_tag st t2 tag d2 row2 w2)) (tagName tag) = Some t) \<and>
           (t2 - t > alertCooldown st \<and> alerts2 \<noteq> [] \<longrightarrow>
              notifications (since w2 (res_world (finish_tag st t2 tag d2 row2 w2))) =
                [(tagName tag, alerts2)]))"
  proof (intro impI allI)
    fix w2 :: "'a world" and t2 d2 row2 alerts2
    assume f: ?fire
    assume a: "CheckAlerts (alertThresholds st) row2 = Inr alerts2 \<and>
           lastAlertTime w2 (tagName tag) =
             lastAlertTime (res_world (finish_tag st t tag d row w)) (tagName tag)"
    from a f l have "lastAlertTime w2 (tagName tag) = Some t" by simp
    then have la: "last_alert w2 (tagName tag) = t" by (simp add: last_alert_def)
    from a have c2: "CheckAlerts (alertThresholds st) row2 = Inr alerts2" by simp
    show "(t2 - t \<le> alertCooldown st \<longrightarrow>
              notifications (since w2 (res_world (finish_tag st t2 tag d2 row2 w2))) = [] \<and>
              lastAlertTime (res_world (finish_tag st t2 tag d2 row2 w2)) (tagName tag) = Some t) \<and>
           (t2 - t > alertCooldown st \<and> alerts2 \<noteq> [] \<longrightarrow>
              notifications (since w2 (res_world (finish_tag st t2 tag d2 row2 w2))) =
                [(tagName tag, alerts2)])"
      using \<open>lastAlertTime w2 (tagName tag) = Some t\<close>
      by (simp add: finish_tag_since[OF c2] finish_tag_lastAlertTime[OF c2] la)
  qed
  from n l k s show ?thesis by blast
qed

lemma demo_check: "CheckAlerts (alertThresholds demo_settings) row_260 = Inr [HighVoltage (PFloat (Fin 260))]"
  by (simp add: CheckAlerts_def check_voltage_def check_current_def dict_get_def
      demo_thresholds_def demo_settings_def row_260_def)

theorem alerts_cooldown_witness:
  "CheckAlerts (alertThresholds demo_settings) row_260 = Inr [HighVoltage (PFloat (Fin 260))] \<and>
   notifications (since (init_world 0)
      (res_world (finish_tag demo_settings 1000 tag_A [] row_260 (init_world (0 :: nat))))) =
     [(''A'', [HighVoltage (PFloat (Fin 260))])] \<and>
   lastAlertTime (res_world (finish_tag demo_settings 1000 tag_A [] row_260 (init_world (0 :: nat))))
     ''A'' = Some 1000 \<and>
   notifications (since (res_world (finish_tag demo_settings 1000 tag_A [] row_260 (init_world (0 :: nat))))
      (res_world (finish_tag demo_settings 1100 tag_A [] row_260
         (res_world (finish_tag demo_settings 1000 tag_A [] row_260 (init_world (0 :: nat))))))) = [] \<and>
   notifications (since (res_world (finish_tag demo_settings 1000 tag_A [] row_260 (init_world (0 :: nat))))
      (res_world (finish_tag demo_settings 1400 tag_A [] row_260
         (res_world (finish_tag demo_settings 1000 tag_A [] row_260 (init_world (0 :: nat))))))) =
     [(''A'', [HighVoltage (PFloat (Fin 260))])]"
proof -
  let ?w0 = "init_world (0 :: nat)"
  let ?al = "[HighVoltage (PFloat (Fin 260))]"
  let ?w1 = "res_world (finish_tag demo_settings 1000 tag_A [] row_260 ?w0)"
  have c: "alertCooldown demo_settings = 300" and nm: "tagName tag_A = ''A''"
    by (simp_all add: demo_settings_def tag_A_def)
  have fire: "?al \<noteq> [] \<and> 1000 - last_alert ?w0 (tagName tag_A) > alertCooldown demo_settings"
    by (simp add: last_alert_def init_world_def c)
  note th = alerts_cooldown[OF demo_check, of ?w0 1000 tag_A "[]"]
  from th fire have n1: "notifications (since ?w0 ?w1) = [(''A'', ?al)]"
    by (simp add: nm)
  from th fire have l1: "lastAlertTime ?w1 ''A'' = Some 1000"
    by (simp add: nm)
  from th fire have later: "\<forall>w2 t2 d2 row2 alerts2.
           CheckAlerts (alertThresholds demo_settings) row2 = Inr alerts2 \<and>
           lastAlertTime w2 (tagName tag_A) = lastAlertTime ?w1 (tagName tag_A) \<longrightarrow>
           (t2 - 1000 \<le> alertCooldown demo_settings \<longrightarrow>
              notifications (since w2 (res_world (finish_tag demo_settings t2 tag_A d2 row2 w2))) = [] \<and>
              lastAlertTime (res_world (finish_tag demo_settings t2 tag_A d2 row2 w2)) (tagName tag_A) =
                Some 1000) \<and>
           (t2 - 1000 > alertCooldown demo_settings \<and> alerts2 \<noteq> [] \<longrightarrow>
              notifications (since w2 (res_world (finish_tag demo_settings t2 tag_A d2 row2 w2))) =
                [(tagName tag_A, alerts2)])"
    by blast
  from later[rule_format, of row_260 ?al ?w1 1100 "[]"] demo_check
  have n2: "notifications (since ?w1 (res_world (finish_tag demo_settings 1100 tag_A [] row_260 ?w1))) = []"
    by (simp add: c)
  from later[rule_format, of row_260 ?al ?w1 1400 "[]"] demo_check
  have n3: "notifications (since ?w1 (res_world (finish_tag demo_settings 1400 tag_A [] row_260 ?w1))) =
              [(''A'', ?al)]"
    by (simp add: c nm)
  from demo_check n1 l1 n2 n3 show ?thesis by blast
qed

text \<open>
  C8 as stated fails for an entity without an earlier alert: it counts as alerted at
  time 0, not as infinitely old. At the cycle time 100 with a cooldown of 300, the alert
  of the row is not sent.
\<close>

theorem no_earlier_alert_counterexample:
  "CheckAlerts (alertThresholds demo_settings) row_260 = Inr [HighVoltage (PFloat (Fin 260))] \<and>
   lastAlertTime (init_world (0 :: nat)) ''A'' = None \<and>
   alertCooldown demo_settings = 300 \<and>
   notifications (since (init_world 0)
      (res_world (finish_tag demo_settings 100 tag_A [] row_260 (init_world (0 :: nat))))) = []"
proof -
  have c: "alertCooldown demo_settings = 300"
    by (simp add: demo_settings_def)
  have l: "lastAlertTime (init_world (0 :: nat)) ''A'' = None"
    by (simp add: init_world_def)
  have n: "notifications (since (init_world 0)
      (res_world (finish_tag demo_settings 100 tag_A [] row_260 (init_world (0 :: nat))))) = []"
    unfolding finish_tag_since[OF demo_check]
    by (simp add: c last_alert_def init_world_def)
  from demo_check l c n show ?thesis by blast
qed

section \<open>The cache of text registers\<close>















section \<open>The refresh interval of the cache\<close>







end
